theory Spec2Isabelle
  imports Complex_Main "HOL-Library.Sublist" "HOL-Library.Word"
begin

section \<open>Python values\<close>

text \<open>
  A Python \<open>str\<close> is a sequence of Unicode code points and is modelled as a list of
  natural numbers; \<open>str\<close> turns an ASCII literal into such a list.  A \<open>bytes\<close> value is a
  list of 8-bit words.  Python's \<open>sub in s\<close> on strings is the contiguous-sublist test
  \<open>sublist sub s\<close> of the library.

  The character classes below are exact for the code points below U+0100; what Python
  does with the letters and digits of other scripts is outside the model (they are left
  unchanged by \<open>py_lower\<close> and are no digits).  Times are real numbers of seconds.
\<close>

type_synonym codepoint = nat
type_synonym pystr = "codepoint list"
type_synonym byte = "8 word"
type_synonym pybytes = "byte list"

definition str :: "string \<Rightarrow> pystr" where
  "str s = map (of_char :: char \<Rightarrow> nat) s"

text \<open>
  What a call can raise: \<open>int\<close> on a string it cannot read, an index out of range, the
  last decoding attempt of the decoder, and \<open>sys.exit\<close> with its exit code.
\<close>

datatype pyerror = ValueError | IndexError | DecodeError | SystemExit int

text \<open>\<open>s.lower()\<close>: A-Z and the upper-case letters of Latin-1 move up by 32.\<close>

definition lower_cp :: "codepoint \<Rightarrow> codepoint" where
  "lower_cp c =
     (if (0x41 \<le> c \<and> c \<le> 0x5A) \<or> (0xC0 \<le> c \<and> c \<le> 0xDE \<and> c \<noteq> 0xD7)
      then c + 0x20 else c)"

definition py_lower :: "pystr \<Rightarrow> pystr" where
  "py_lower s = map lower_cp s"

text \<open>
  \<open>t.isdigit()\<close> holds of a non-empty string of digit characters.  Below U+0100 these
  are 0-9 and the superscripts U+00B2, U+00B3 and U+00B9.  \<open>int(t)\<close>, called on a string
  that passed \<open>isdigit\<close>, reads decimal digits only: it raises \<open>ValueError\<close> (here
  \<open>None\<close>) on a superscript.  The bound that newer versions of Python put on the
  number of digits \<open>int\<close> reads is not modelled.  The regular expression class \<open>\d\<close> is
  0-9 below U+0100.
\<close>

definition is_ascii_digit :: "codepoint \<Rightarrow> bool" where
  "is_ascii_digit c = (0x30 \<le> c \<and> c \<le> 0x39)"

definition is_digit_cp :: "codepoint \<Rightarrow> bool" where
  "is_digit_cp c = (is_ascii_digit c \<or> c \<in> {0xB2, 0xB3, 0xB9})"

definition py_isdigit :: "pystr \<Rightarrow> bool" where
  "py_isdigit t = (t \<noteq> [] \<and> list_all is_digit_cp t)"

definition decimal_value :: "pystr \<Rightarrow> int" where
  "decimal_value t = foldl (\<lambda>acc c. 10 * acc + int (c - 0x30)) 0 t"

definition py_int :: "pystr \<Rightarrow> int option" where
  "py_int t = (if t \<noteq> [] \<and> list_all is_ascii_digit t then Some (decimal_value t) else None)"

text \<open>\<open>strip_prefix p s\<close> is the rest of \<open>s\<close> after the literal \<open>p\<close>, if \<open>s\<close> starts with it.\<close>

fun strip_prefix :: "'a list \<Rightarrow> 'a list \<Rightarrow> 'a list option" where
  "strip_prefix [] s = Some s"
| "strip_prefix (p # ps) [] = None"
| "strip_prefix (p # ps) (c # cs) = (if p = c then strip_prefix ps cs else None)"

lemma strip_prefix_length: "strip_prefix p s = Some r \<Longrightarrow> length s = length p + length r"
  by (induction p s rule: strip_prefix.induct) (auto split: if_splits)

text \<open>
  \<open>s.split(sep)\<close> for a non-empty separator: scanning from the left, every occurrence of
  \<open>sep\<close> ends the current piece and is skipped.
\<close>

function split_from :: "pystr \<Rightarrow> pystr \<Rightarrow> pystr \<Rightarrow> pystr list" where
  "split_from sep cur [] = [cur]"
| "split_from sep cur (c # cs) =
     (if sep \<noteq> [] \<and> prefix sep (c # cs)
      then cur # split_from sep [] (drop (length sep) (c # cs))
      else split_from sep (cur @ [c]) cs)"
  by pat_completeness auto
termination
  by (relation "measure (\<lambda>(sep, cur, s). length s)") auto

definition py_split :: "pystr \<Rightarrow> pystr \<Rightarrow> pystr list" where
  "py_split s sep = split_from sep [] s"

section \<open>Responses and the bounce detector\<close>

text \<open>
  What the script reads of a \<open>requests\<close> response.  Reading \<open>resp.url.lower()\<close> or
  \<open>resp.text\<close> may raise; \<open>None\<close> stands for a read that raises.  \<open>resp.content\<close> and the
  two encoding hints may be Python's \<open>None\<close>, which is \<open>None\<close> here too.
\<close>

record response =
  resp_status_code :: int
  resp_url :: "pystr option"
  resp_text :: "pystr option"
  resp_content :: "pybytes option"
  resp_encoding :: "pystr option"
  resp_apparent_encoding :: "pystr option"

text \<open>The phrase U+7EDF U+4E00 U+8EAB U+4EFD U+8BA4 U+8BC1 (unified identity authentication).\<close>

definition auth_phrase :: pystr where
  "auth_phrase = [0x7EDF, 0x4E00, 0x8EAB, 0x4EFD, 0x8BA4, 0x8BC1]"

definition auth_marker :: pystr where
  "auth_marker = str ''authserver''"

definition is_login_bounce :: "response \<Rightarrow> bool" where
  "is_login_bounce resp =
     (let url_l = (case resp_url resp of Some u \<Rightarrow> py_lower u | None \<Rightarrow> []);
          txt = (case resp_text resp of Some t \<Rightarrow> t | None \<Rightarrow> [])
      in sublist auth_phrase txt \<or> sublist auth_marker url_l)"

section \<open>The response decoder\<close>

text \<open>
  The decoder calls three library functions that are not code of the script:
  \<open>gzip.decompress\<close>, \<open>zlib.decompress\<close> and \<open>bytes.decode(enc, errors="ignore")\<close>.  They
  are parameters of the model; \<open>None\<close> is a call that raises.
\<close>

record pylib =
  gzip_decompress :: "pybytes \<Rightarrow> pybytes option"
  zlib_decompress :: "pybytes \<Rightarrow> pybytes option"
  decode_ignore :: "pystr \<Rightarrow> pybytes \<Rightarrow> pystr option"

definition maybe_decompress :: "pylib \<Rightarrow> pybytes \<Rightarrow> pybytes" where
  "maybe_decompress lib b =
     (if length b \<ge> 2 \<and> b ! 0 = 0x1F \<and> b ! 1 = 0x8B then
        (case gzip_decompress lib b of Some d \<Rightarrow> d | None \<Rightarrow> b)
      else if length b \<ge> 2 \<and> b ! 0 = 0x78 \<and> b ! 1 \<in> {0x01, 0x5E, 0x9C, 0xDA} then
        (case zlib_decompress lib b of Some d \<Rightarrow> d | None \<Rightarrow> b)
      else b)"

text \<open>
  The loop over the candidate encodings: a candidate that is \<open>None\<close> or empty is skipped,
  a candidate whose decoding raises is skipped, the first other one returns.
\<close>

fun try_encodings :: "pylib \<Rightarrow> pybytes \<Rightarrow> pystr option list \<Rightarrow> (pystr \<times> pystr) option" where
  "try_encodings lib raw [] = None"
| "try_encodings lib raw (None # encs) = try_encodings lib raw encs"
| "try_encodings lib raw (Some enc # encs) =
     (if enc = [] then try_encodings lib raw encs
      else (case decode_ignore lib enc raw of
              Some s \<Rightarrow> Some (s, enc)
            | None \<Rightarrow> try_encodings lib raw encs))"

definition fallback_encodings :: "pystr option list" where
  "fallback_encodings =
     [Some (str ''utf-8''), Some (str ''gb18030''), Some (str ''gbk''),
      Some (str ''gb2312''), Some (str ''latin1'')]"

definition smart_read :: "pylib \<Rightarrow> response \<Rightarrow> pyerror + (pystr \<times> pystr)" where
  "smart_read lib resp =
     (let raw0 = (case resp_content resp of Some c \<Rightarrow> c | None \<Rightarrow> []);
          raw = maybe_decompress lib raw0
      in case try_encodings lib raw
                ([resp_encoding resp, resp_apparent_encoding resp] @ fallback_encodings) of
           Some r \<Rightarrow> Inr r
         | None \<Rightarrow>
             (case decode_ignore lib (str ''utf-8'') raw of
                Some s \<Rightarrow> Inr (s, str ''utf-8'')
              | None \<Rightarrow> Inl DecodeError))"

section \<open>The catalog parser\<close>

text \<open>
  \<open>course_info\<close> reads the accepted body with two regular expressions.  \<open>match_id\<close> is a
  match of \<open>id:(\d+),\<close> at the start of a string: the group and the rest after the match.
  The greedy \<open>\d+\<close> takes every digit that follows, and giving digits back cannot help,
  since the next character would be a digit and not the comma.  \<open>match_name\<close> is the same
  for \<open>name:'([^']*)',\<close>.  \<open>findall\<close> scans from the left: after a match it goes on behind
  the match, otherwise one character further.
\<close>

definition match_id :: "pystr \<Rightarrow> (pystr \<times> pystr) option" where
  "match_id s =
     (case strip_prefix (str ''id:'') s of
        None \<Rightarrow> None
      | Some r \<Rightarrow>
          (let ds = takeWhile is_ascii_digit r; r' = dropWhile is_ascii_digit r
           in if ds \<noteq> [] then
                (case strip_prefix (str '','') r' of
                   Some rest \<Rightarrow> Some (ds, rest)
                 | None \<Rightarrow> None)
              else None))"

definition match_name :: "pystr \<Rightarrow> (pystr \<times> pystr) option" where
  "match_name s =
     (case strip_prefix (str ''name:'' @ [0x27]) s of
        None \<Rightarrow> None
      | Some r \<Rightarrow>
          (let g = takeWhile (\<lambda>c. c \<noteq> 0x27) r; r' = dropWhile (\<lambda>c. c \<noteq> 0x27) r
           in case strip_prefix [0x27, 0x2C] r' of
                Some rest \<Rightarrow> Some (g, rest)
              | None \<Rightarrow> None))"

lemma match_id_shorter:
  assumes "match_id s = Some (g, rest)"
  shows "length rest < length s"
proof -
  from assms obtain r where r: "strip_prefix (str ''id:'') s = Some r"
    and rest: "strip_prefix (str '','') (dropWhile is_ascii_digit r) = Some rest"
    by (auto simp: match_id_def Let_def split: option.splits if_splits)
  have "length rest < length (dropWhile is_ascii_digit r)"
    using strip_prefix_length [OF rest] by (simp add: str_def)
  also have "\<dots> \<le> length r"
    by (rule length_dropWhile_le)
  also have "\<dots> \<le> length s"
    using strip_prefix_length [OF r] by simp
  finally show ?thesis .
qed

lemma match_name_shorter:
  assumes "match_name s = Some (g, rest)"
  shows "length rest < length s"
proof -
  from assms obtain r where r: "strip_prefix (str ''name:'' @ [0x27]) s = Some r"
    and rest: "strip_prefix [0x27, 0x2C] (dropWhile (\<lambda>c. c \<noteq> 0x27) r) = Some rest"
    by (auto simp: match_name_def Let_def split: option.splits)
  have "length rest < length (dropWhile (\<lambda>c. c \<noteq> 0x27) r)"
    using strip_prefix_length [OF rest] by simp
  also have "\<dots> \<le> length r"
    by (rule length_dropWhile_le)
  also have "\<dots> \<le> length s"
    using strip_prefix_length [OF r] by simp
  finally show ?thesis .
qed

function findall_id :: "pystr \<Rightarrow> pystr list" where
  "findall_id [] = []"
| "findall_id (c # cs) =
     (case match_id (c # cs) of
        Some (g, rest) \<Rightarrow> g # findall_id rest
      | None \<Rightarrow> findall_id cs)"
  by pat_completeness auto
termination
  by (relation "measure length") (auto dest: match_id_shorter)

function findall_name :: "pystr \<Rightarrow> pystr list" where
  "findall_name [] = []"
| "findall_name (c # cs) =
     (case match_name (c # cs) of
        Some (g, rest) \<Rightarrow> g # findall_name rest
      | None \<Rightarrow> findall_name cs)"
  by pat_completeness auto
termination
  by (relation "measure length") (auto dest: match_name_shorter)

text \<open>
  The loop over \<open>text.split("code:")\<close>: the first name of each piece is kept, and the loop
  breaks at the first piece without a name.
\<close>

fun collect_names :: "pystr list \<Rightarrow> pystr list" where
  "collect_names [] = []"
| "collect_names (item # items) =
     (case findall_name item of
        [] \<Rightarrow> []
      | m0 # ms \<Rightarrow> m0 # collect_names items)"

record catalog =
  id_list :: "pystr list"
  name_list :: "pystr list"
  shown :: nat

text \<open>No identifier at all ends the process with exit code 1.\<close>

definition parse_catalog :: "pystr \<Rightarrow> pyerror + catalog" where
  "parse_catalog body =
     (let ids = findall_id body;
          names = collect_names (py_split body (str ''code:''))
      in if ids = [] then Inl (SystemExit 1)
         else Inr \<lparr>id_list = ids, name_list = names, shown = min (length ids) (length names)\<rparr>)"

text \<open>The rows that are printed: index, course id and name, for the first \<open>shown\<close> indices.\<close>

definition entries :: "catalog \<Rightarrow> (nat \<times> pystr \<times> pystr) list" where
  "entries cat = map (\<lambda>i. (i, id_list cat ! i, name_list cat ! i)) [0..<shown cat]"

definition catalog_entries :: "pystr \<Rightarrow> pyerror + (nat \<times> pystr \<times> pystr) list" where
  "catalog_entries body =
     (case parse_catalog body of Inl e \<Rightarrow> Inl e | Inr cat \<Rightarrow> Inr (entries cat))"

section \<open>The selection mapper\<close>

text \<open>
  The loop over the tokens, with the list \<open>chosen\<close> and the warnings printed so far.  The
  call \<open>int(t)\<close> is outside any \<open>try\<close>: when it raises, the loop ends with the error.
\<close>

datatype notice = IllegalInput pystr | NotFound pystr

fun map_tokens ::
  "pystr list \<Rightarrow> nat \<Rightarrow> pystr list \<Rightarrow> pystr list \<times> notice list \<Rightarrow>
     pyerror + (pystr list \<times> notice list)" where
  "map_tokens ids n [] acc = Inr acc"
| "map_tokens ids n (t # ts) (chosen, out) =
     (if \<not> py_isdigit t then map_tokens ids n ts (chosen, out @ [IllegalInput t])
      else
        (case py_int t of
           None \<Rightarrow> Inl ValueError
         | Some idx \<Rightarrow>
             if 0 \<le> idx \<and> idx < int n then
               (if nat idx < length ids
                then map_tokens ids n ts (chosen @ [ids ! nat idx], out)
                else Inl IndexError)
             else if t \<in> set ids then map_tokens ids n ts (chosen @ [t], out)
             else map_tokens ids n ts (chosen, out @ [NotFound t])))"

text \<open>Parsing and selection together; an empty selection ends the process with code 0.\<close>

definition choose_courses :: "pystr \<Rightarrow> pystr list \<Rightarrow> pyerror + pystr list" where
  "choose_courses body tokens =
     (case parse_catalog body of
        Inl e \<Rightarrow> Inl e
      | Inr cat \<Rightarrow>
          (case map_tokens (id_list cat) (shown cat) tokens ([], []) of
             Inl e \<Rightarrow> Inl e
           | Inr (chosen, out) \<Rightarrow> if chosen = [] then Inl (SystemExit 0) else Inr chosen))"

section \<open>The submission scheduler\<close>

text \<open>A form is a dictionary literal: its fields in the order they are written.\<close>

type_synonym form = "(pystr \<times> pystr) list"

definition make_form :: "pystr \<Rightarrow> form" where
  "make_form cid =
     [(str ''optype'', str ''true''),
      (str ''operator0'', cid @ str '':true:0''),
      (str ''lesson0'', cid)]"

definition make_forms :: "pystr list \<Rightarrow> form list" where
  "make_forms lesson_ids = map make_form lesson_ids"

definition base_post :: pystr where
  "base_post = str ''https://aao-eas.nuaa.edu.cn/eams/stdElectCourse!batchOperator.action''"

definition post_urls :: "pystr \<Rightarrow> pystr \<Rightarrow> pystr list" where
  "post_urls used_param pid =
     (if used_param = str ''profileId''
      then [base_post @ str ''?profileId='' @ pid, base_post @ str ''?electionProfile.id='' @ pid]
      else [base_post @ str ''?electionProfile.id='' @ pid, base_post @ str ''?profileId='' @ pid])"

definition POST_MIN_GAP :: real where "POST_MIN_GAP = 8 / 10"
definition POST_INTERVAL :: real where "POST_INTERVAL = 7 / 10"
definition BACKOFF_SECONDS :: real where "BACKOFF_SECONDS = 3"

text \<open>
  The network and the clocks are the environment of the loop.  The \<open>k\<close>-th POST of a run
  either raises or returns a response, and takes some time; the wall clock
  (\<open>datetime.now()\<close>) is read off the monotonic clock (\<open>time.monotonic()\<close>) by a function of
  the environment, so that it may jump.  Time passes in \<open>time.sleep\<close>, which takes the time
  it is asked for, and in a POST; the statements between them take none.

  The state of the loop is the monotonic clock, the variable \<open>last_post_ts\<close>, the number
  of POSTs issued and the trace of what the loop did.  A \<open>Post\<close> event holds the URL, the
  form, the time at which the call was issued and the value of \<open>last_post_ts\<close> at that
  moment.
\<close>

datatype outcome = Raises | Returns response

record network =
  post_outcome :: "nat \<Rightarrow> outcome"
  post_duration :: "nat \<Rightarrow> real"
  wall_clock :: "real \<Rightarrow> real"

datatype message = Started | Waiting real | Result int pystr | NotSent

datatype event = Sleep real | Post pystr form real real | Print message

record sched =
  clock :: real
  last_post_ts :: real
  posts :: nat
  trace :: "event list"

definition sleep :: "real \<Rightarrow> sched \<Rightarrow> sched" where
  "sleep d st = st\<lparr>clock := clock st + d, trace := trace st @ [Sleep d]\<rparr>"

definition print :: "message \<Rightarrow> sched \<Rightarrow> sched" where
  "print m st = st\<lparr>trace := trace st @ [Print m]\<rparr>"

text \<open>\<open>re.findall\<close> of a run of characters from U+4E00 to U+9FA5: the maximal runs.\<close>

definition is_cjk :: "codepoint \<Rightarrow> bool" where
  "is_cjk c = (0x4E00 \<le> c \<and> c \<le> 0x9FA5)"

fun cjk_runs :: "pystr \<Rightarrow> pystr \<Rightarrow> pystr list" where
  "cjk_runs cur [] = (if cur = [] then [] else [cur])"
| "cjk_runs cur (c # cs) =
     (if is_cjk c then cjk_runs (cur @ [c]) cs
      else (if cur = [] then [] else [cur]) @ cjk_runs [] cs)"

text \<open>The phrase U+8BF7 U+4E0D U+8981 U+8FC7 U+5FEB U+70B9 U+51FB (do not click too fast).\<close>

definition too_fast_phrase :: pystr where
  "too_fast_phrase = [0x8BF7, 0x4E0D, 0x8981, 0x8FC7, 0x5FEB, 0x70B9, 0x51FB]"

text \<open>The pacing gate in front of every POST.\<close>

definition throttle :: "sched \<Rightarrow> sched" where
  "throttle st =
     (let gap = clock st - last_post_ts st
      in if gap < POST_MIN_GAP then sleep (POST_MIN_GAP - gap) st else st)"

text \<open>
  The body of the loop over the URLs, for one URL.  The result says whether the loop
  breaks (\<open>sent_ok\<close>) or continues with the next URL.  The assignment to \<open>last_post_ts\<close>
  stands behind the POST inside the \<open>try\<close>: a POST that raises skips it, and so does
  nothing that follows a raise inside the \<open>try\<close>.
\<close>

definition attempt :: "pylib \<Rightarrow> network \<Rightarrow> pystr \<Rightarrow> form \<Rightarrow> sched \<Rightarrow> sched \<times> bool" where
  "attempt lib net url data st0 =
     (let st1 = throttle st0;
          k = posts st1;
          st2 = st1\<lparr>clock := clock st1 + post_duration net k,
                    posts := k + 1,
                    trace := trace st1 @ [Post url data (clock st1) (last_post_ts st1)]\<rparr>
      in case post_outcome net k of
           Raises \<Rightarrow> (st2, False)
         | Returns resp \<Rightarrow>
             (let st3 = st2\<lparr>last_post_ts := clock st2\<rparr>
              in if is_login_bounce resp then (st3, False)
                 else
                   (case smart_read lib resp of
                      Inl e \<Rightarrow> (st3, False)
                    | Inr (body, enc) \<Rightarrow>
                        (let chinese = cjk_runs [] body;
                             msg = (if concat chinese \<noteq> [] then concat chinese else take 180 body);
                             st4 = print (Result (resp_status_code resp) msg) st3;
                             st5 = (if sublist too_fast_phrase body
                                       \<or> resp_status_code resp \<in> {429, 503}
                                    then sleep BACKOFF_SECONDS st4 else st4)
                         in (st5, True)))))"

fun try_urls :: "pylib \<Rightarrow> network \<Rightarrow> form \<Rightarrow> pystr list \<Rightarrow> sched \<Rightarrow> sched \<times> bool" where
  "try_urls lib net data [] st = (st, False)"
| "try_urls lib net data (url # urls) st =
     (case attempt lib net url data st of
        (st', True) \<Rightarrow> (st', True)
      | (st', False) \<Rightarrow> try_urls lib net data urls st')"

fun submit_forms :: "pylib \<Rightarrow> network \<Rightarrow> pystr list \<Rightarrow> form list \<Rightarrow> sched \<Rightarrow> sched" where
  "submit_forms lib net urls [] st = st"
| "submit_forms lib net urls (data # forms) st =
     (case try_urls lib net data urls st of
        (st', sent_ok) \<Rightarrow>
          submit_forms lib net urls forms (if \<not> sent_ok then print NotSent st' else st'))"

text \<open>
  One iteration of \<open>while True\<close>, and the first \<open>n\<close> iterations of the loop, which never
  ends.  The open time \<open>dt\<close> is a parameter, in seconds like the wall clock: the string
  the script parses is a constant that parses.  A run starts at some monotonic time
  \<open>t0\<close> with \<open>last_post_ts = 0.0\<close>, after the line that announces the wait.
\<close>

definition iteration ::
  "pylib \<Rightarrow> network \<Rightarrow> real \<Rightarrow> pystr list \<Rightarrow> form list \<Rightarrow> sched \<Rightarrow> sched" where
  "iteration lib net dt urls forms st =
     (let now = wall_clock net (clock st)
      in sleep POST_INTERVAL
           (if now \<ge> dt then submit_forms lib net urls forms st
            else print (Waiting (dt - now)) st))"

fun run :: "pylib \<Rightarrow> network \<Rightarrow> real \<Rightarrow> pystr list \<Rightarrow> form list \<Rightarrow> nat \<Rightarrow> sched \<Rightarrow> sched" where
  "run lib net dt urls forms 0 st = st"
| "run lib net dt urls forms (Suc n) st =
     run lib net dt urls forms n (iteration lib net dt urls forms st)"

definition grab_courses ::
  "pylib \<Rightarrow> network \<Rightarrow> pystr list \<Rightarrow> pystr \<Rightarrow> pystr \<Rightarrow> real \<Rightarrow> real \<Rightarrow> nat \<Rightarrow> sched" where
  "grab_courses lib net lesson_ids pid used_param dt t0 n =
     run lib net dt (post_urls used_param pid) (make_forms lesson_ids) n
       \<lparr>clock = t0, last_post_ts = 0, posts = 0, trace = [Print Started]\<rparr>"

text \<open>A POST is paced when it is issued no earlier than \<open>POST_MIN_GAP\<close> after \<open>last_post_ts\<close>.\<close>

fun paced :: "event \<Rightarrow> bool" where
  "paced (Post url data issued recorded) = (recorded + POST_MIN_GAP \<le> issued)"
| "paced (Sleep d) = True"
| "paced (Print m) = True"

text \<open>What the \<open>k\<close>-th of a row of iterations prints and sleeps when it starts before the open time.\<close>

definition waiting_round :: "network \<Rightarrow> real \<Rightarrow> real \<Rightarrow> nat \<Rightarrow> event list" where
  "waiting_round net dt t0 k =
     [Print (Waiting (dt - wall_clock net (t0 + real k * POST_INTERVAL))), Sleep POST_INTERVAL]"

section \<open>Example inputs\<close>

text \<open>
  The catalog body of the specification's example, a body whose records carry the name in
  front of \<open>code:\<close>, a body whose second and third records have no name, and a body
  whose second record has no name and the id 0.
\<close>

definition spec_body :: pystr where
  "spec_body = str ''...id:1001,code:x name:'Math',id:1002,code:y name:'Physics',...''"

definition records_body :: pystr where
  "records_body = str ''...id:1001,name:'Math',code:x,id:1002,name:'Physics',code:y,...''"



text \<open>
  A library for the examples: both decompressors refuse their input, and the only codec
  is \<open>utf-8\<close>, which here keeps the 7-bit bytes and ignores the others.
\<close>

definition ascii_lib :: pylib where
  "ascii_lib =
     \<lparr>gzip_decompress = (\<lambda>b. None),
      zlib_decompress = (\<lambda>b. None),
      decode_ignore =
        (\<lambda>enc b. if enc = str ''utf-8'' then Some (map unat (filter (\<lambda>x. x < 0x80) b)) else None)\<rparr>"

definition bad_gzip_response :: response where
  "bad_gzip_response =
     \<lparr>resp_status_code = 200, resp_url = None, resp_text = None,
      resp_content = Some [0x1F, 0x8B, 0x41],
      resp_encoding = None, resp_apparent_encoding = Some (str ''no-such-codec'')\<rparr>"

definition ok_response :: response where
  "ok_response =
     \<lparr>resp_status_code = 200,
      resp_url = Some (str ''https://aao-eas.nuaa.edu.cn/eams/stdElectCourse!batchOperator.action''),
      resp_text = Some (str ''ok''),
      resp_content = Some [0x6F, 0x6B],
      resp_encoding = Some (str ''utf-8''), resp_apparent_encoding = None\<rparr>"

definition redirected_response :: response where
  "redirected_response =
     \<lparr>resp_status_code = 200,
      resp_url = Some (str ''https://'' @ str ''AuthServer'' @ str ''.nuaa.edu.cn/login''),
      resp_text = None, resp_content = None,
      resp_encoding = None, resp_apparent_encoding = None\<rparr>"

definition unread_response :: response where
  "unread_response =
     \<lparr>resp_status_code = 200, resp_url = None, resp_text = None, resp_content = None,
      resp_encoding = None, resp_apparent_encoding = None\<rparr>"

text \<open>
  A network whose first POST raises after a tenth of a second, one whose first POST raises
  at once, and one that never fails.
\<close>

definition flaky_net :: network where
  "flaky_net =
     \<lparr>post_outcome = (\<lambda>k. if k = 0 then Raises else Returns ok_response),
      post_duration = (\<lambda>k. 1 / 10),
      wall_clock = (\<lambda>t. t)\<rparr>"

definition refusing_net :: network where
  "refusing_net =
     \<lparr>post_outcome = (\<lambda>k. if k = 0 then Raises else Returns ok_response),
      post_duration = (\<lambda>k. if k = 0 then 0 else 1 / 10),
      wall_clock = (\<lambda>t. t)\<rparr>"

definition steady_net :: network where
  "steady_net =
     \<lparr>post_outcome = (\<lambda>k. Returns ok_response),
      post_duration = (\<lambda>k. 1 / 10),
      wall_clock = (\<lambda>t. t)\<rparr>"

section \<open>Properties of the bounce detector\<close>

lemma py_lower_append: "py_lower (a @ b) = py_lower a @ py_lower b"
  by (simp add: py_lower_def)

lemma auth_phrase_not_Nil: "auth_phrase \<noteq> []"
  by (simp add: auth_phrase_def)

lemma auth_marker_not_Nil: "auth_marker \<noteq> []"
  by (simp add: auth_marker_def str_def)

text \<open>
  C5: \<open>is_login_bounce\<close> is true exactly when the body text that could be read contains
  the authentication phrase or the lower-cased URL that could be read contains the marker
  \<open>authserver\<close>; a URL holding the marker in any mix of cases is detected; and a response
  whose URL and body both fail to be read is no bounce.
\<close>

theorem C5_is_login_bounce_iff:
  "(is_login_bounce resp \<longleftrightarrow>
      (\<exists>t a b. resp_text resp = Some t \<and> t = a @ auth_phrase @ b) \<or>
      (\<exists>u a b. resp_url resp = Some u \<and> py_lower u = a @ auth_marker @ b))
   \<and> (py_lower v = auth_marker \<and> resp_url resp = Some (a' @ v @ b') \<longrightarrow> is_login_bounce resp)
   \<and> (resp_url resp = None \<and> resp_text resp = None \<longrightarrow> \<not> is_login_bounce resp)"
proof -
  have absent: "\<not> sublist auth_phrase []" "\<not> sublist auth_marker []"
    using auth_phrase_not_Nil auth_marker_not_Nil by simp_all
  have iff: "is_login_bounce resp \<longleftrightarrow>
      (\<exists>t a b. resp_text resp = Some t \<and> t = a @ auth_phrase @ b) \<or>
      (\<exists>u a b. resp_url resp = Some u \<and> py_lower u = a @ auth_marker @ b)"
  proof (cases "resp_url resp")
    case None
    then show ?thesis
      using absent by (cases "resp_text resp") (auto simp: is_login_bounce_def sublist_def)
  next
    case (Some u)
    then show ?thesis
      using absent by (cases "resp_text resp") (auto simp: is_login_bounce_def sublist_def)
  qed
  have mixed: "is_login_bounce resp"
    if "py_lower v = auth_marker" "resp_url resp = Some (a' @ v @ b')"
  proof -
    have "py_lower (a' @ v @ b') = py_lower a' @ auth_marker @ py_lower b'"
      using that(1) by (simp add: py_lower_append)
    with that(2) show ?thesis
      unfolding iff by blast
  qed
  have unread: "\<not> is_login_bounce resp" if "resp_url resp = None" "resp_text resp = None"
    using that unfolding iff by simp
  from iff mixed unread show ?thesis by blast
qed

theorem C5_witness:
  "is_login_bounce redirected_response \<and> \<not> is_login_bounce unread_response"
proof -
  have low: "py_lower (str ''AuthServer'') = auth_marker"
    by (simp add: auth_marker_def py_lower_def lower_cp_def str_def)
  have url: "resp_url redirected_response =
      Some (str ''https://'' @ str ''AuthServer'' @ str ''.nuaa.edu.cn/login'')"
    by (simp add: redirected_response_def)
  have "is_login_bounce redirected_response"
    using C5_is_login_bounce_iff [of redirected_response "str ''AuthServer''" "str ''https://''"
        "str ''.nuaa.edu.cn/login''"] low url
    by blast
  moreover have "\<not> is_login_bounce unread_response"
    using C5_is_login_bounce_iff [of unread_response]
    by (simp add: unread_response_def)
  ultimately show ?thesis ..
qed

section \<open>Properties of the response decoder\<close>

lemma starts_with_pair:
  "(length b \<ge> 2 \<and> b ! 0 = x \<and> b ! 1 = y) \<longleftrightarrow> prefix [x, y] b"
proof (cases b)
  case Nil
  then show ?thesis by simp
next
  case (Cons b0 bs)
  then show ?thesis by (cases bs) auto
qed

text \<open>
  C7: bytes that begin with 0x1F 0x8B go through \<open>gzip.decompress\<close>; other bytes that
  begin with 0x78 and one of 0x01, 0x5E, 0x9C, 0xDA go through \<open>zlib.decompress\<close>; all
  other bytes pass unchanged; and where the decompression that is tried raises, the
  original bytes are kept.
\<close>

theorem C7_maybe_decompress:
  "(prefix [0x1F, 0x8B] b \<longrightarrow>
      maybe_decompress lib b = (case gzip_decompress lib b of Some d \<Rightarrow> d | None \<Rightarrow> b))
   \<and> (\<not> prefix [0x1F, 0x8B] b \<and> (\<exists>h \<in> {0x01, 0x5E, 0x9C, 0xDA}. prefix [0x78, h] b) \<longrightarrow>
      maybe_decompress lib b = (case zlib_decompress lib b of Some d \<Rightarrow> d | None \<Rightarrow> b))
   \<and> (\<not> prefix [0x1F, 0x8B] b \<and> \<not> (\<exists>h \<in> {0x01, 0x5E, 0x9C, 0xDA}. prefix [0x78, h] b) \<longrightarrow>
      maybe_decompress lib b = b)
   \<and> (gzip_decompress lib b = None \<and> zlib_decompress lib b = None \<longrightarrow>
      maybe_decompress lib b = b)"
proof -
  have gz: "(length b \<ge> 2 \<and> b ! 0 = 0x1F \<and> b ! 1 = 0x8B) \<longleftrightarrow> prefix [0x1F, 0x8B] b"
    by (rule starts_with_pair)
  have zl: "(length b \<ge> 2 \<and> b ! 0 = 0x78 \<and> b ! 1 \<in> {0x01, 0x5E, 0x9C, 0xDA})
      \<longleftrightarrow> (\<exists>h \<in> {0x01, 0x5E, 0x9C, 0xDA}. prefix [0x78, h] b)"
    using starts_with_pair [of b "0x78"] by blast
  show ?thesis
    unfolding maybe_decompress_def gz zl by simp
qed

theorem C7_witness:
  "prefix [0x1F, 0x8B] [0x1F, 0x8B, 0x41 :: byte]
   \<and> maybe_decompress ascii_lib [0x1F, 0x8B, 0x41] = [0x1F, 0x8B, 0x41]
   \<and> maybe_decompress ascii_lib [0x78, 0x9C, 0x00] = [0x78, 0x9C, 0x00]
   \<and> maybe_decompress ascii_lib [0x78, 0x02] = [0x78, 0x02]"
  using C7_maybe_decompress [of "[0x1F, 0x8B, 0x41]" ascii_lib]
    C7_maybe_decompress [of "[0x78, 0x9C, 0x00]" ascii_lib]
    C7_maybe_decompress [of "[0x78, 0x02]" ascii_lib]
  by (simp add: ascii_lib_def)

lemma try_encodings_total:
  assumes "\<And>b. decode_ignore lib e b \<noteq> None" and "e \<noteq> []" and "Some e \<in> set encs"
  shows "\<exists>s enc. try_encodings lib raw encs = Some (s, enc) \<and> enc \<noteq> []"
  using assms(3)
proof (induction encs)
  case Nil
  then show ?case by simp
next
  case (Cons cand encs)
  show ?case
  proof (cases cand)
    case None
    with Cons show ?thesis by simp
  next
    case (Some enc)
    show ?thesis
    proof (cases "decode_ignore lib enc raw")
      case None
      with Some Cons assms(1) [of raw] show ?thesis
        by (cases "enc = e") auto
    next
      case (Some s)
      with \<open>cand = Some enc\<close> Cons assms(2) show ?thesis by auto
    qed
  qed
qed

text \<open>
  C4: given that decoding as \<open>utf-8\<close> with \<open>errors="ignore"\<close> never raises (a fact about
  Python's codec, not about the script), \<open>smart_read\<close> returns a string and a non-empty
  encoding name for every content, also \<open>None\<close>, empty or with a broken gzip or zlib
  header, and for every pair of encoding hints.
\<close>

theorem C4_smart_read_total:
  assumes "\<And>b. decode_ignore lib (str ''utf-8'') b \<noteq> None"
  shows "\<exists>decoded enc. smart_read lib resp = Inr (decoded, enc) \<and> enc \<noteq> []"
proof -
  have "str ''utf-8'' \<noteq> []" by (simp add: str_def)
  moreover have "Some (str ''utf-8'') \<in>
      set ([resp_encoding resp, resp_apparent_encoding resp] @ fallback_encodings)"
    by (simp add: fallback_encodings_def)
  ultimately obtain s enc where
    "try_encodings lib (maybe_decompress lib (case resp_content resp of Some c \<Rightarrow> c | None \<Rightarrow> []))
       ([resp_encoding resp, resp_apparent_encoding resp] @ fallback_encodings) = Some (s, enc)"
    and "enc \<noteq> []"
    using try_encodings_total [OF assms] by blast
  then show ?thesis
    by (simp add: smart_read_def Let_def)
qed

theorem C4_witness:
  "(\<forall>b. decode_ignore ascii_lib (str ''utf-8'') b \<noteq> None)
   \<and> (\<exists>t enc. smart_read ascii_lib bad_gzip_response = Inr (t, enc) \<and> enc \<noteq> [])
   \<and> smart_read ascii_lib bad_gzip_response = Inr ([0x1F, 0x41], str ''utf-8'')"
proof -
  have total: "\<And>b. decode_ignore ascii_lib (str ''utf-8'') b \<noteq> None"
    by (simp add: ascii_lib_def)
  have "smart_read ascii_lib bad_gzip_response = Inr ([0x1F, 0x41], str ''utf-8'')"
    by (simp add: smart_read_def maybe_decompress_def ascii_lib_def bad_gzip_response_def
        fallback_encodings_def str_def)
  with total C4_smart_read_total [OF total, of bad_gzip_response] show ?thesis
    by blast
qed

section \<open>Properties of the catalog parser\<close>

lemma collect_names_takeWhile:
  "collect_names items =
     map (\<lambda>item. hd (findall_name item)) (takeWhile (\<lambda>item. findall_name item \<noteq> []) items)"
  by (induction items) (auto split: list.splits)



lemmas parse_eval =
  parse_catalog_def py_split_def str_def match_id_def match_name_def is_ascii_digit_def Let_def

lemma parse_spec_body:
  "parse_catalog spec_body = Inr \<lparr>id_list = [str ''1001'', str ''1002''], name_list = [], shown = 0\<rparr>"
  by (simp add: spec_body_def parse_eval)

lemma parse_records_body:
  "parse_catalog records_body =
     Inr \<lparr>id_list = [str ''1001'', str ''1002''], name_list = [str ''Math'', str ''Physics''],
          shown = 2\<rparr>"
  by (simp add: records_body_def parse_eval)



lemma entries_two:
  "entries \<lparr>id_list = [a, b], name_list = [c, d], shown = 2\<rparr> = [(0, a, c), (1, b, d)]"
proof -
  have "[0..<2] = [0, 1]" by (simp add: upt_rec)
  then show ?thesis by (simp add: entries_def)
qed

text \<open>
  C1, as amended: for the body \<open>...id:1001,code:x name:'Math',id:1002,code:y name:'Physics',...\<close>
  the parser finds the ids 1001 and 1002 and no name, since the piece in front of the first
  \<open>code:\<close> has no name and the loop stops there; the entry count is 0 and there is no
  entry.  For a body whose records carry the name in front of \<open>code:\<close> the entries are
  (0, 1001, Math) and (1, 1002, Physics).  In general the ids are the matches of the
  \<open>id:\<close> pattern, the names are the first names of the pieces up to the first piece
  without one, and the entry count is the minimum of the two lengths.
\<close>

theorem C1_catalog_entries:
  "catalog_entries spec_body = Inr []
   \<and> parse_catalog spec_body =
       Inr \<lparr>id_list = [str ''1001'', str ''1002''], name_list = [], shown = 0\<rparr>
   \<and> catalog_entries records_body =
       Inr [(0, str ''1001'', str ''Math''), (1, str ''1002'', str ''Physics'')]
   \<and> (parse_catalog body = Inr cat \<longrightarrow>
        id_list cat = findall_id body
        \<and> name_list cat =
            map (\<lambda>item. hd (findall_name item))
              (takeWhile (\<lambda>item. findall_name item \<noteq> []) (py_split body (str ''code:'')))
        \<and> shown cat = min (length (id_list cat)) (length (name_list cat))
        \<and> length (entries cat) = shown cat)"
proof -
  have a: "catalog_entries spec_body = Inr []"
    by (simp add: catalog_entries_def parse_spec_body entries_def)
  have b: "catalog_entries records_body =
       Inr [(0, str ''1001'', str ''Math''), (1, str ''1002'', str ''Physics'')]"
    by (simp add: catalog_entries_def parse_records_body entries_two)
  have c: "id_list cat = findall_id body
        \<and> name_list cat =
            map (\<lambda>item. hd (findall_name item))
              (takeWhile (\<lambda>item. findall_name item \<noteq> []) (py_split body (str ''code:'')))
        \<and> shown cat = min (length (id_list cat)) (length (name_list cat))
        \<and> length (entries cat) = shown cat" if "parse_catalog body = Inr cat"
    using that
    by (auto simp: parse_catalog_def Let_def entries_def collect_names_takeWhile split: if_splits)
  from a b c parse_spec_body show ?thesis by blast
qed

theorem C1_witness:
  "parse_catalog records_body =
     Inr \<lparr>id_list = [str ''1001'', str ''1002''], name_list = [str ''Math'', str ''Physics''],
          shown = 2\<rparr>
   \<and> findall_id records_body = [str ''1001'', str ''1002'']
   \<and> map (\<lambda>item. hd (findall_name item))
        (takeWhile (\<lambda>item. findall_name item \<noteq> []) (py_split records_body (str ''code:'')))
      = [str ''Math'', str ''Physics'']"
  using C1_catalog_entries [of records_body
      "\<lparr>id_list = [str ''1001'', str ''1002''], name_list = [str ''Math'', str ''Physics''],
          shown = 2\<rparr>"]
  by (simp add: parse_records_body)

theorem C1_counterexample:
  "catalog_entries spec_body \<noteq>
     Inr [(0, str ''1001'', str ''Math''), (1, str ''1002'', str ''Physics'')]"
  by (simp add: catalog_entries_def parse_spec_body entries_def)

section \<open>Properties of the selection mapper\<close>


lemma map_tokens_illegal:
  "\<not> py_isdigit t \<Longrightarrow>
     map_tokens ids n (t # ts) (chosen, out) = map_tokens ids n ts (chosen, out @ [IllegalInput t])"
  by simp

lemma map_tokens_index:
  "py_isdigit t \<Longrightarrow> py_int t = Some idx \<Longrightarrow> idx < int n \<Longrightarrow> n \<le> length ids \<Longrightarrow> 0 \<le> idx \<Longrightarrow>
     map_tokens ids n (t # ts) (chosen, out) = map_tokens ids n ts (chosen @ [ids ! nat idx], out)"
  by (simp add: nat_less_iff)


lemma map_tokens_unknown:
  "py_isdigit t \<Longrightarrow> py_int t = Some idx \<Longrightarrow> \<not> idx < int n \<Longrightarrow> t \<notin> set ids \<Longrightarrow>
     map_tokens ids n (t # ts) (chosen, out) = map_tokens ids n ts (chosen, out @ [NotFound t])"
  by simp

lemma token_values:
  "py_isdigit (str ''1'')" "py_int (str ''1'') = Some 1"
  "py_isdigit (str ''1002'')" "py_int (str ''1002'') = Some 1002"
  "py_isdigit (str ''9'')" "py_int (str ''9'') = Some 9"
  by (simp_all add: py_isdigit_def py_int_def is_digit_cp_def is_ascii_digit_def str_def
      decimal_value_def)

text \<open>
  The example of the specification holds: with three entries of which the second has the
  id 1002, the tokens 1, 1002 and 9 choose 1002 twice and warn about 9.
\<close>

lemma map_tokens_example:
  assumes "length ids = 3" and "ids ! 1 = str ''1002''" and "str ''9'' \<notin> set ids"
  shows "map_tokens ids 3 [str ''1'', str ''1002'', str ''9''] ([], [])
           = Inr ([str ''1002'', str ''1002''], [NotFound (str ''9'')])"
proof -
  have mem: "str ''1002'' \<in> set ids"
    using assms(1,2) by (metis nth_mem one_less_numeral_iff semiring_norm(77))
  show ?thesis
    using assms mem by (simp add: token_values)
qed

text \<open>
  C6, where the code departs from the claim: the token made of the superscript two
  (U+00B2) passes \<open>isdigit\<close>, so it is not skipped with a warning; \<open>int\<close> cannot read it,
  and the selection ends with \<open>ValueError\<close> instead of going on to the next token.
\<close>

theorem C6_superscript_token_raises:
  "py_isdigit [0xB2] \<and> py_int [0xB2] = None
   \<and> map_tokens [str ''1001'', str ''1002'', str ''1003''] 3 [[0xB2]] ([], []) = Inl ValueError
   \<and> choose_courses records_body [str ''1'', [0xB2]] = Inl ValueError"
  by (simp add: py_isdigit_def py_int_def is_digit_cp_def is_ascii_digit_def choose_courses_def
      parse_records_body str_def decimal_value_def)




section \<open>Properties of the submission forms\<close>

text \<open>
  C8: the form of a course id is a function of the id alone.  For the id 500 it is
  optype = true, operator0 = 500:true:0, lesson0 = 500; for every id it has exactly these
  three keys, once each; the form built at a position of the id list does not depend on
  the other ids; and building it \<open>k\<close> times gives \<open>k\<close> equal forms.
\<close>

theorem C8_make_form:
  "make_form (str ''500'') =
     [(str ''optype'', str ''true''), (str ''operator0'', str ''500:true:0''),
      (str ''lesson0'', str ''500'')]
   \<and> dom (map_of (make_form cid)) = {str ''optype'', str ''operator0'', str ''lesson0''}
   \<and> map_of (make_form cid) (str ''optype'') = Some (str ''true'')
   \<and> map_of (make_form cid) (str ''operator0'') = Some (cid @ str '':true:0'')
   \<and> map_of (make_form cid) (str ''lesson0'') = Some cid
   \<and> distinct (map fst (make_form cid))
   \<and> make_forms (before @ [cid] @ after) ! length before = make_form cid
   \<and> make_forms (replicate k cid) = replicate k (make_form cid)"
  by (auto simp: make_form_def make_forms_def str_def nth_append)

section \<open>Properties of the submission scheduler\<close>

lemma throttle_paced:
  "last_post_ts (throttle st) = last_post_ts st \<and>
   last_post_ts st + POST_MIN_GAP \<le> clock (throttle st) \<and>
   posts (throttle st) = posts st \<and>
   (\<exists>new. trace (throttle st) = trace st @ new \<and> list_all paced new)"
  by (auto simp: throttle_def sleep_def Let_def)

lemma attempt_trace:
  "\<exists>new. trace (fst (attempt lib net url data st)) = trace st @ new \<and> list_all paced new"
proof -
  obtain new where new: "trace (throttle st) = trace st @ new" "list_all paced new"
    using throttle_paced by blast
  have le: "last_post_ts (throttle st) + POST_MIN_GAP \<le> clock (throttle st)"
    using throttle_paced [of st] by simp
  show ?thesis
    using new le
    by (auto simp: attempt_def Let_def print_def sleep_def split: outcome.splits sum.splits)
qed

lemma try_urls_trace:
  "\<exists>new. trace (fst (try_urls lib net data urls st)) = trace st @ new \<and> list_all paced new"
proof (induction urls arbitrary: st)
  case Nil
  then show ?case by simp
next
  case (Cons url urls)
  obtain st' ok where a: "attempt lib net url data st = (st', ok)"
    by (cases "attempt lib net url data st")
  obtain new where new: "trace st' = trace st @ new" "list_all paced new"
    using attempt_trace [of lib net url data st] a by auto
  show ?case
  proof (cases ok)
    case True
    with a new show ?thesis by simp
  next
    case False
    obtain new' where "trace (fst (try_urls lib net data urls st')) = trace st' @ new'"
      "list_all paced new'"
      using Cons.IH by blast
    with a new False show ?thesis by simp
  qed
qed

lemma submit_forms_trace:
  "\<exists>new. trace (submit_forms lib net urls forms st) = trace st @ new \<and> list_all paced new"
proof (induction forms arbitrary: st)
  case Nil
  then show ?case by simp
next
  case (Cons data forms)
  obtain st' ok where t: "try_urls lib net data urls st = (st', ok)"
    by (cases "try_urls lib net data urls st")
  obtain new where new: "trace st' = trace st @ new" "list_all paced new"
    using try_urls_trace [of lib net data urls st] t by auto
  define st'' where "st'' = (if \<not> ok then print NotSent st' else st')"
  have st'': "\<exists>new. trace st'' = trace st @ new \<and> list_all paced new"
    using new by (auto simp: st''_def print_def)
  obtain new' where "trace (submit_forms lib net urls forms st'') = trace st'' @ new'"
      "list_all paced new'"
    using Cons.IH by blast
  with st'' t show ?case
    by (auto simp: st''_def)
qed

lemma iteration_trace:
  "\<exists>new. trace (iteration lib net dt urls forms st) = trace st @ new \<and> list_all paced new"
  using submit_forms_trace [of lib net urls forms st]
  by (auto simp: iteration_def Let_def sleep_def print_def)

lemma run_trace:
  "\<exists>new. trace (run lib net dt urls forms n st) = trace st @ new \<and> list_all paced new"
proof (induction n arbitrary: st)
  case 0
  then show ?case by simp
next
  case (Suc n)
  obtain new where "trace (iteration lib net dt urls forms st) = trace st @ new" "list_all paced new"
    using iteration_trace by blast
  moreover obtain new' where
    "trace (run lib net dt urls forms n (iteration lib net dt urls forms st))
       = trace (iteration lib net dt urls forms st) @ new'" "list_all paced new'"
    using Suc.IH by blast
  ultimately show ?case by simp
qed

lemma attempt_raises:
  "post_outcome net (posts st) = Raises \<Longrightarrow>
     last_post_ts (fst (attempt lib net url data st)) = last_post_ts st \<and>
     \<not> snd (attempt lib net url data st)"
  using throttle_paced [of st] by (simp add: attempt_def Let_def)

lemma attempt_returns:
  "post_outcome net (posts st) = Returns resp \<Longrightarrow>
     last_post_ts (fst (attempt lib net url data st))
       = clock (throttle st) + post_duration net (posts st)"
  using throttle_paced [of st]
  by (simp add: attempt_def Let_def print_def sleep_def split: sum.splits)

lemma attempt_prefix:
  "prefix (trace (throttle st) @ [Post url data (clock (throttle st)) (last_post_ts st)])
     (trace (fst (attempt lib net url data st)))"
  using throttle_paced [of st]
  by (auto simp: attempt_def Let_def print_def sleep_def split: outcome.splits sum.splits)

lemma ok_response_no_bounce: "\<not> is_login_bounce ok_response"
  by (simp add: is_login_bounce_def ok_response_def auth_phrase_def auth_marker_def str_def
      py_lower_def lower_cp_def sublist_Cons_right)

lemma smart_read_ok_response: "smart_read ascii_lib ok_response = Inr (str ''ok'', str ''utf-8'')"
  by (simp add: smart_read_def maybe_decompress_def ascii_lib_def ok_response_def
      fallback_encodings_def str_def)

lemma ok_body_plain:
  "\<not> sublist too_fast_phrase (str ''ok'')" "cjk_runs [] (str ''ok'') = []"
  "take 180 (str ''ok'') = str ''ok''"
  by (simp_all add: too_fast_phrase_def str_def sublist_Cons_right is_cjk_def)

lemma attempt_ok:
  assumes "post_outcome net (posts st) = Returns ok_response"
    and "POST_MIN_GAP \<le> clock st - last_post_ts st"
  shows "attempt ascii_lib net url data st =
     (st\<lparr>clock := clock st + post_duration net (posts st),
         last_post_ts := clock st + post_duration net (posts st),
         posts := posts st + 1,
         trace := trace st @ [Post url data (clock st) (last_post_ts st),
                              Print (Result 200 (str ''ok''))]\<rparr>, True)"
proof -
  have thr: "throttle st = st"
    using assms(2) by (simp add: throttle_def)
  have code: "resp_status_code ok_response = 200"
    by (simp add: ok_response_def)
  show ?thesis
    using assms(1)
    by (simp add: attempt_def thr Let_def ok_response_no_bounce smart_read_ok_response
        print_def ok_body_plain code)
qed

text \<open>
  C2, where the code departs from the claim: a POST that raises leaves \<open>last_post_ts\<close> as
  it was, since the assignment stands behind the call inside the \<open>try\<close>.  With the last
  recorded submission at 99 and the clock at 100, a first POST that raises after a tenth
  of a second leaves \<open>last_post_ts\<close> at 99, and the POST to the fallback URL is issued at
  once, at 100.1, with no sleep between the two.
\<close>

theorem C2_exception_not_recorded:
  "attempt ascii_lib flaky_net url data \<lparr>clock = 100, last_post_ts = 99, posts = 0, trace = []\<rparr>
     = (\<lparr>clock = 100 + 1 / 10, last_post_ts = 99, posts = 1, trace = [Post url data 100 99]\<rparr>, False)
   \<and> trace (fst (try_urls ascii_lib flaky_net data [url, url']
        \<lparr>clock = 100, last_post_ts = 99, posts = 0, trace = []\<rparr>))
     = [Post url data 100 99, Post url' data (100 + 1 / 10) 99, Print (Result 200 (str ''ok''))]"
proof -
  let ?st0 = "\<lparr>clock = 100, last_post_ts = 99, posts = 0, trace = []\<rparr> :: sched"
  let ?st1 = "\<lparr>clock = 100 + 1 / 10, last_post_ts = 99, posts = 1,
               trace = [Post url data 100 99]\<rparr> :: sched"
  have first: "attempt ascii_lib flaky_net url data ?st0 = (?st1, False)"
    by (simp add: attempt_def throttle_def Let_def flaky_net_def POST_MIN_GAP_def)
  have second: "attempt ascii_lib flaky_net url' data ?st1 =
      (?st1\<lparr>clock := clock ?st1 + post_duration flaky_net (posts ?st1),
         last_post_ts := clock ?st1 + post_duration flaky_net (posts ?st1),
         posts := posts ?st1 + 1,
         trace := trace ?st1 @ [Post url' data (clock ?st1) (last_post_ts ?st1),
                              Print (Result 200 (str ''ok''))]\<rparr>, True)"
    by (rule attempt_ok) (simp_all add: flaky_net_def POST_MIN_GAP_def)
  show ?thesis
    using first second by simp
qed

lemma attempt_gate:
  "prefix
     (trace st @
        (if clock st - last_post_ts st < POST_MIN_GAP
         then [Sleep (POST_MIN_GAP - (clock st - last_post_ts st)),
               Post url data (last_post_ts st + POST_MIN_GAP) (last_post_ts st)]
         else [Post url data (clock st) (last_post_ts st)]))
     (trace (fst (attempt lib net url data st)))"
proof (cases "clock st - last_post_ts st < POST_MIN_GAP")
  case True
  have "clock st + (POST_MIN_GAP - (clock st - last_post_ts st)) = last_post_ts st + POST_MIN_GAP"
    by simp
  then have "clock (throttle st) = last_post_ts st + POST_MIN_GAP"
    and "trace (throttle st) = trace st @ [Sleep (POST_MIN_GAP - (clock st - last_post_ts st))]"
    using True by (simp_all add: throttle_def sleep_def Let_def)
  then show ?thesis
    using True attempt_prefix [of st url data lib net] by simp
next
  case False
  then have "throttle st = st"
    by (simp add: throttle_def Let_def)
  then show ?thesis
    using False attempt_prefix [of st url data lib net] by simp
qed

text \<open>
  The gate measures from the recorded instant.  In front of every POST, when the time
  since \<open>last_post_ts\<close> is below \<open>POST_MIN_GAP\<close>, the loop sleeps for exactly the difference
  and then issues the POST, at \<open>last_post_ts + POST_MIN_GAP\<close>; otherwise it issues the POST
  at once.  With no time elapsed since the recorded instant the POST is delayed by the
  whole gap.  A POST that returns a response records its completion time.  And in the
  first \<open>n\<close> iterations of a run, every POST, for whichever course and URL, is issued no
  earlier than \<open>POST_MIN_GAP\<close> after the instant recorded at that moment.
\<close>

lemma gate_recorded_instant:
  "prefix
     (trace st @
        (if clock st - last_post_ts st < POST_MIN_GAP
         then [Sleep (POST_MIN_GAP - (clock st - last_post_ts st)),
               Post url data (last_post_ts st + POST_MIN_GAP) (last_post_ts st)]
         else [Post url data (clock st) (last_post_ts st)]))
     (trace (fst (attempt lib net url data st)))
   \<and> (clock st = last_post_ts st \<longrightarrow>
        prefix (trace st @ [Sleep POST_MIN_GAP, Post url data (clock st + POST_MIN_GAP) (clock st)])
          (trace (fst (attempt lib net url data st))))
   \<and> (post_outcome net (posts st) = Returns resp \<longrightarrow>
        last_post_ts (fst (attempt lib net url data st))
          = clock (throttle st) + post_duration net (posts st))
   \<and> list_all paced (trace (grab_courses lib net lesson_ids pid used_param dt t0 n))"
proof -
  have zero: "prefix (trace st @ [Sleep POST_MIN_GAP, Post url data (clock st + POST_MIN_GAP) (clock st)])
          (trace (fst (attempt lib net url data st)))" if "clock st = last_post_ts st"
    using attempt_gate [of st url data lib net] that by (simp add: POST_MIN_GAP_def)
  obtain new where
    "trace (grab_courses lib net lesson_ids pid used_param dt t0 n) = [Print Started] @ new"
    and "list_all paced new"
    using run_trace [of lib net dt "post_urls used_param pid" "make_forms lesson_ids" n
        "\<lparr>clock = t0, last_post_ts = 0, posts = 0, trace = [Print Started]\<rparr>"]
    by (auto simp: grab_courses_def)
  then have all: "list_all paced (trace (grab_courses lib net lesson_ids pid used_param dt t0 n))"
    by simp
  from attempt_gate zero attempt_returns all show ?thesis by blast
qed

lemma gate_after_returned_post:
  "prefix
     [Sleep POST_MIN_GAP, Post (str ''u'') (make_form (str ''500'')) (100 + POST_MIN_GAP) 100]
     (trace (fst (attempt ascii_lib steady_net (str ''u'') (make_form (str ''500''))
        \<lparr>clock = 100, last_post_ts = 100, posts = 0, trace = []\<rparr>)))
   \<and> last_post_ts (fst (attempt ascii_lib steady_net (str ''u'') (make_form (str ''500''))
        \<lparr>clock = 100, last_post_ts = 100, posts = 0, trace = []\<rparr>)) = 100 + POST_MIN_GAP + 1 / 10"
proof -
  let ?st = "\<lparr>clock = 100, last_post_ts = 100, posts = 0, trace = []\<rparr> :: sched"
  have out: "post_outcome steady_net (posts ?st) = Returns ok_response"
    by (simp add: steady_net_def)
  have thr: "clock (throttle ?st) = 100 + POST_MIN_GAP"
    by (simp add: throttle_def sleep_def POST_MIN_GAP_def)
  have dur: "post_duration steady_net (posts ?st) = 1 / 10"
    by (simp add: steady_net_def)
  show ?thesis
    using gate_recorded_instant
      [of ?st "str ''u''" "make_form (str ''500'')" ascii_lib steady_net ok_response]
      out thr dur
    by simp
qed

text \<open>
  C3, where the code departs from the claim: two submissions issued back-to-back with no
  time elapsed between them, and the second is not delayed at all.  A run starts at the
  open time with the monotonic clock at 100; the POST to the first URL raises at once.
  It leaves \<open>last_post_ts\<close> at its initial 0, the gate in front of the fallback URL
  measures 100 seconds since that instant and does not sleep, and the second POST is
  issued at 100 as well: the trace has no \<open>Sleep\<close> between the two \<open>Post\<close> events, and both
  carry the issue time 100.
\<close>

theorem C3_no_delay_after_exception:
  "grab_courses ascii_lib refusing_net [str ''500''] (str ''4665'') (str ''profileId'') 100 100 1
     = \<lparr>clock = 100 + 1 / 10 + POST_INTERVAL, last_post_ts = 100 + 1 / 10, posts = 2,
        trace = [Print Started,
                 Post (base_post @ str ''?profileId=4665'') (make_form (str ''500'')) 100 0,
                 Post (base_post @ str ''?electionProfile.id=4665'') (make_form (str ''500'')) 100 0,
                 Print (Result 200 (str ''ok'')),
                 Sleep POST_INTERVAL]\<rparr>"
proof -
  let ?st0 = "\<lparr>clock = 100, last_post_ts = 0, posts = 0, trace = [Print Started]\<rparr> :: sched"
  let ?u1 = "base_post @ str ''?profileId='' @ str ''4665''"
  let ?u2 = "base_post @ str ''?electionProfile.id='' @ str ''4665''"
  let ?f = "make_form (str ''500'')"
  let ?st1 = "\<lparr>clock = 100, last_post_ts = 0, posts = 1,
               trace = [Print Started, Post ?u1 ?f 100 0]\<rparr> :: sched"
  have first: "attempt ascii_lib refusing_net ?u1 ?f ?st0 = (?st1, False)"
    by (simp add: attempt_def throttle_def Let_def refusing_net_def POST_MIN_GAP_def)
  have second: "attempt ascii_lib refusing_net ?u2 ?f ?st1 =
      (?st1\<lparr>clock := clock ?st1 + post_duration refusing_net (posts ?st1),
         last_post_ts := clock ?st1 + post_duration refusing_net (posts ?st1),
         posts := posts ?st1 + 1,
         trace := trace ?st1 @ [Post ?u2 ?f (clock ?st1) (last_post_ts ?st1),
                              Print (Result 200 (str ''ok''))]\<rparr>, True)"
    by (rule attempt_ok) (simp_all add: refusing_net_def POST_MIN_GAP_def)
  have urls: "post_urls (str ''profileId'') (str ''4665'') = [?u1, ?u2]"
    by (simp add: post_urls_def)
  have wall: "wall_clock refusing_net t = t" for t
    by (simp add: refusing_net_def)
  have dur: "post_duration refusing_net (Suc 0) = 1 / 10"
    by (simp add: refusing_net_def)
  have strs: "str ''?profileId=4665'' = str ''?profileId='' @ str ''4665''"
      "str ''?electionProfile.id=4665'' = str ''?electionProfile.id='' @ str ''4665''"
    by (simp_all add: str_def)
  show ?thesis
    unfolding grab_courses_def urls make_forms_def strs
    using first second
    by (simp add: iteration_def wall Let_def sleep_def dur)
qed

lemma iteration_waiting:
  assumes "wall_clock net (clock st) < dt"
  shows "iteration lib net dt urls forms st =
        st\<lparr>clock := clock st + POST_INTERVAL,
           trace := trace st @
             [Print (Waiting (dt - wall_clock net (clock st))), Sleep POST_INTERVAL]\<rparr>"
  using assms by (simp add: iteration_def Let_def sleep_def print_def)

lemma run_waiting:
  assumes "\<forall>k<n. wall_clock net (clock st + real k * POST_INTERVAL) < dt"
  shows "run lib net dt urls forms n st =
        st\<lparr>clock := clock st + real n * POST_INTERVAL,
           trace := trace st @ concat (map (waiting_round net dt (clock st)) [0..<n])\<rparr>"
  using assms
proof (induction n arbitrary: st)
  case 0
  then show ?case by simp
next
  case (Suc n)
  define st' where "st' = iteration lib net dt urls forms st"
  have "wall_clock net (clock st + real 0 * POST_INTERVAL) < dt"
    using Suc.prems by blast
  then have now: "wall_clock net (clock st) < dt"
    by simp
  have st': "st' = st\<lparr>clock := clock st + POST_INTERVAL,
           trace := trace st @ waiting_round net dt (clock st) 0\<rparr>"
    unfolding st'_def using iteration_waiting [OF now] by (simp add: waiting_round_def)
  have shift: "clock st' + real k * POST_INTERVAL = clock st + real (Suc k) * POST_INTERVAL" for k
    by (simp add: st' distrib_right)
  have later: "\<forall>k<n. wall_clock net (clock st' + real k * POST_INTERVAL) < dt"
  proof (intro allI impI)
    fix k assume "k < n"
    then have "Suc k < Suc n" by simp
    then have "wall_clock net (clock st + real (Suc k) * POST_INTERVAL) < dt"
      using Suc.prems by blast
    then show "wall_clock net (clock st' + real k * POST_INTERVAL) < dt"
      by (simp only: shift)
  qed
  have round: "waiting_round net dt (clock st') k = waiting_round net dt (clock st) (Suc k)" for k
    unfolding waiting_round_def by (simp only: shift)
  have idx: "[0..<Suc n] = 0 # map Suc [0..<n]"
    by (simp add: upt_conv_Cons map_Suc_upt del: upt_Suc)
  have roundf: "waiting_round net dt (clock st') = (\<lambda>k. waiting_round net dt (clock st) (Suc k))"
    using round by blast
  have tr: "trace st' = trace st @ waiting_round net dt (clock st) 0"
    by (simp add: st')
  have traces: "trace st' @ concat (map (waiting_round net dt (clock st')) [0..<n])
      = trace st @ concat (map (waiting_round net dt (clock st)) [0..<Suc n])"
    unfolding idx roundf tr by (simp add: comp_def)
  have clocks: "clock st' + real n * POST_INTERVAL = clock st + real (Suc n) * POST_INTERVAL"
    by (rule shift)
  have "run lib net dt urls forms (Suc n) st = run lib net dt urls forms n st'"
    by (simp add: st'_def)
  also have "\<dots> = st'\<lparr>clock := clock st' + real n * POST_INTERVAL,
           trace := trace st' @ concat (map (waiting_round net dt (clock st')) [0..<n])\<rparr>"
    using Suc.IH [OF later] .
  also have "\<dots> = st'\<lparr>clock := clock st + real (Suc n) * POST_INTERVAL,
           trace := trace st @ concat (map (waiting_round net dt (clock st)) [0..<Suc n])\<rparr>"
    by (simp only: traces clocks)
  also have "\<dots> = st\<lparr>clock := clock st + real (Suc n) * POST_INTERVAL,
           trace := trace st @ concat (map (waiting_round net dt (clock st)) [0..<Suc n])\<rparr>"
    by (simp add: st')
  finally show ?case .
qed

text \<open>
  C9: an iteration that starts with the wall clock before the open time prints the waiting
  message with the remaining time, sleeps \<open>POST_INTERVAL\<close> and does nothing else; a row
  of \<open>n\<close> iterations that all start before the open time does this \<open>n\<close> times and issues
  no POST; and an iteration that issues a POST started with the wall clock at or past the
  open time.
\<close>

theorem C9_wait_until_open:
  "(wall_clock net (clock st) < dt \<longrightarrow>
      iteration lib net dt urls forms st =
        st\<lparr>clock := clock st + POST_INTERVAL,
           trace := trace st @
             [Print (Waiting (dt - wall_clock net (clock st))), Sleep POST_INTERVAL]\<rparr>)
   \<and> ((\<forall>k<n. wall_clock net (clock st + real k * POST_INTERVAL) < dt) \<longrightarrow>
      run lib net dt urls forms n st =
        st\<lparr>clock := clock st + real n * POST_INTERVAL,
           trace := trace st @ concat (map (waiting_round net dt (clock st)) [0..<n])\<rparr>)
   \<and> (posts (iteration lib net dt urls forms st) \<noteq> posts st \<longrightarrow> dt \<le> wall_clock net (clock st))"
proof -
  have third: "dt \<le> wall_clock net (clock st)"
    if "posts (iteration lib net dt urls forms st) \<noteq> posts st"
  proof (rule ccontr)
    assume "\<not> dt \<le> wall_clock net (clock st)"
    then have "wall_clock net (clock st) < dt" by simp
    then have "posts (iteration lib net dt urls forms st) = posts st"
      by (simp add: iteration_waiting)
    with that show False by simp
  qed
  show ?thesis
    using iteration_waiting [of net st dt lib urls forms] run_waiting [of n net st dt lib urls forms]
      third
    by blast
qed

theorem C9_witness:
  "grab_courses ascii_lib steady_net [str ''500''] (str ''4665'') (str ''profileId'') 1000 0 2
     = \<lparr>clock = 2 * POST_INTERVAL, last_post_ts = 0, posts = 0,
        trace = [Print Started,
                 Print (Waiting 1000), Sleep POST_INTERVAL,
                 Print (Waiting (1000 - POST_INTERVAL)), Sleep POST_INTERVAL]\<rparr>"
proof -
  let ?st = "\<lparr>clock = 0, last_post_ts = 0, posts = 0, trace = [Print Started]\<rparr> :: sched"
  have wall: "wall_clock steady_net t = t" for t
    by (simp add: steady_net_def)
  have before: "\<forall>k<2. wall_clock steady_net (clock ?st + real k * POST_INTERVAL) < 1000"
  proof (intro allI impI)
    fix k :: nat assume "k < 2"
    then have "k = 0 \<or> k = 1" by auto
    then show "wall_clock steady_net (clock ?st + real k * POST_INTERVAL) < 1000"
      by (auto simp: wall POST_INTERVAL_def)
  qed
  have two: "[0..<2] = [0, 1]"
    by (simp add: upt_rec)
  have "run ascii_lib steady_net 1000 (post_urls (str ''profileId'') (str ''4665''))
          (make_forms [str ''500'']) 2 ?st
        = ?st\<lparr>clock := clock ?st + real 2 * POST_INTERVAL,
           trace := trace ?st @ concat (map (waiting_round steady_net 1000 (clock ?st)) [0..<2])\<rparr>"
    using C9_wait_until_open [of steady_net ?st 1000 ascii_lib
        "post_urls (str ''profileId'') (str ''4665'')" "make_forms [str ''500'']" 2] before
    by blast
  then show ?thesis
    by (simp add: grab_courses_def two waiting_round_def wall)
qed

end
